theory Spec2Isabelle
  imports Complex_Main "HOL-Library.AList" "HOL-Library.Multiset"
    "HOL-Library.Char_ord" "HOL-Library.List_Lexorder"
begin

section \<open>Data model of \<^verbatim>\<open>src/app.py\<close>\<close>

text \<open>
  The application keeps two module-level dictionaries. \<^verbatim>\<open>activities\<close> maps an activity
  name to a dictionary with the keys description, schedule, max_participants and
  participants; \<^verbatim>\<open>activity_documents\<close> maps an activity name to the list of documents
  uploaded for it. A Python dictionary keeps its keys in insertion order and
  \<^verbatim>\<open>list(activities.items())\<close> reads them in that order, so both dictionaries are
  association lists: \<open>map_of\<close> is the lookup, \<open>AList.update\<close> the assignment (it
  replaces the value of a key where the key stands and puts a new key last, as a Python
  dictionary does). Python's unbounded integers are \<open>int\<close>.
\<close>

record activity =
  description :: string
  schedule :: string
  max_participants :: int
  participants :: "string list"

record doc =
  email :: string
  filename :: string
  content_type :: string
  score :: int
  verified :: bool

record store =
  activities :: "(string \<times> activity) list"
  activity_documents :: "(string \<times> doc list) list"

text \<open>\<^verbatim>\<open>raise HTTPException(status_code=..., detail=...)\<close> is the only way a handler fails.\<close>

datatype http_exception = HTTPException (status_code: nat) (detail: string)

text \<open>
  A handler that writes to the dictionaries returns what it answers and the store it
  leaves behind; an exception leaves the store as it was when it was raised.
\<close>

type_synonym 'a response = "(http_exception + 'a) \<times> store"

subsection \<open>The seed data (lines 24 to 82)\<close>

definition seed_activities :: "(string \<times> activity) list" where
  "seed_activities =
    [(''Chess Club'',
        \<lparr>description = ''Learn strategies and compete in chess tournaments'',
         schedule = ''Fridays, 3:30 PM - 5:00 PM'',
         max_participants = 12,
         participants = [''michael@mergington.edu'', ''daniel@mergington.edu'']\<rparr>),
     (''Programming Class'',
        \<lparr>description = ''Learn programming fundamentals and build software projects'',
         schedule = ''Tuesdays and Thursdays, 3:30 PM - 4:30 PM'',
         max_participants = 20,
         participants = [''emma@mergington.edu'', ''sophia@mergington.edu'']\<rparr>),
     (''Gym Class'',
        \<lparr>description = ''Physical education and sports activities'',
         schedule = ''Mondays, Wednesdays, Fridays, 2:00 PM - 3:00 PM'',
         max_participants = 30,
         participants = [''john@mergington.edu'', ''olivia@mergington.edu'']\<rparr>),
     (''Soccer Team'',
        \<lparr>description = ''Join the school soccer team and compete in matches'',
         schedule = ''Tuesdays and Thursdays, 4:00 PM - 5:30 PM'',
         max_participants = 22,
         participants = [''liam@mergington.edu'', ''noah@mergington.edu'']\<rparr>),
     (''Basketball Team'',
        \<lparr>description = ''Practice and play basketball with the school team'',
         schedule = ''Wednesdays and Fridays, 3:30 PM - 5:00 PM'',
         max_participants = 15,
         participants = [''ava@mergington.edu'', ''mia@mergington.edu'']\<rparr>),
     (''Art Club'',
        \<lparr>description = ''Explore your creativity through painting and drawing'',
         schedule = ''Thursdays, 3:30 PM - 5:00 PM'',
         max_participants = 15,
         participants = [''amelia@mergington.edu'', ''harper@mergington.edu'']\<rparr>),
     (''Drama Club'',
        \<lparr>description = ''Act, direct, and produce plays and performances'',
         schedule = ''Mondays and Wednesdays, 4:00 PM - 5:30 PM'',
         max_participants = 20,
         participants = [''ella@mergington.edu'', ''scarlett@mergington.edu'']\<rparr>),
     (''Math Club'',
        \<lparr>description = ''Solve challenging problems and participate in math competitions'',
         schedule = ''Tuesdays, 3:30 PM - 4:30 PM'',
         max_participants = 10,
         participants = [''james@mergington.edu'', ''benjamin@mergington.edu'']\<rparr>),
     (''Debate Team'',
        \<lparr>description = ''Develop public speaking and argumentation skills'',
         schedule = ''Fridays, 4:00 PM - 5:30 PM'',
         max_participants = 12,
         participants = [''charlotte@mergington.edu'', ''henry@mergington.edu'']\<rparr>)]"

definition seed :: store where
  "seed = \<lparr>activities = seed_activities, activity_documents = []\<rparr>"

section \<open>Enrollment (lines 95 to 136)\<close>

text \<open>
  \<^verbatim>\<open>activity["participants"].append(email)\<close> writes to the list held by the dictionary,
  so the entry of \<open>activity_name\<close> changes where it stands.
\<close>

definition signup_for_activity :: "string \<Rightarrow> string \<Rightarrow> store \<Rightarrow> string response" where
  "signup_for_activity activity_name email' st =
    (case map_of (activities st) activity_name of
       None \<Rightarrow> (Inl (HTTPException 404 ''Activity not found''), st)
     | Some activity \<Rightarrow>
         if email' \<in> set (participants activity)
         then (Inl (HTTPException 400 ''Student is already signed up''), st)
         else (Inr (''Signed up '' @ email' @ '' for '' @ activity_name),
               st\<lparr>activities := AList.update activity_name
                     (activity\<lparr>participants := participants activity @ [email']\<rparr>)
                     (activities st)\<rparr>))"

text \<open>\<^verbatim>\<open>list.remove(x)\<close> deletes the first element equal to \<open>x\<close>: \<open>remove1\<close>.\<close>

definition unregister_from_activity :: "string \<Rightarrow> string \<Rightarrow> store \<Rightarrow> string response" where
  "unregister_from_activity activity_name email' st =
    (case map_of (activities st) activity_name of
       None \<Rightarrow> (Inl (HTTPException 404 ''Activity not found''), st)
     | Some activity \<Rightarrow>
         if email' \<notin> set (participants activity)
         then (Inl (HTTPException 400 ''Student is not signed up for this activity''), st)
         else (Inr (''Unregistered '' @ email' @ '' from '' @ activity_name),
               st\<lparr>activities := AList.update activity_name
                     (activity\<lparr>participants := remove1 email' (participants activity)\<rparr>)
                     (activities st)\<rparr>))"

section \<open>Documents (lines 139 to 172)\<close>

text \<open>\<^verbatim>\<open>activity_documents.get(activity_name, [])\<close>.\<close>

definition documents_get :: "(string \<times> doc list) list \<Rightarrow> string \<Rightarrow> doc list" where
  "documents_get documents activity_name =
    (case map_of documents activity_name of None \<Rightarrow> [] | Some docs \<Rightarrow> docs)"

text \<open>
  \<^verbatim>\<open>activity_documents.setdefault(activity_name, []).append(doc)\<close>: a name with no
  entry gets one (placed last), and the document goes to the end of the entry's list.
  Only the file's name and content type are kept.
\<close>

definition upload_document ::
  "string \<Rightarrow> string \<Rightarrow> string \<Rightarrow> string \<Rightarrow> int \<Rightarrow> store \<Rightarrow> string response" where
  "upload_document activity_name email' file_filename file_content_type score' st =
    (if map_of (activities st) activity_name = None
     then (Inl (HTTPException 404 ''Activity not found''), st)
     else
       (Inr (''Uploaded '' @ file_filename @ '' for '' @ email' @ '' in '' @ activity_name),
        st\<lparr>activity_documents := AList.update activity_name
              (documents_get (activity_documents st) activity_name @
                 [\<lparr>email = email', filename = file_filename,
                   content_type = file_content_type, score = score', verified = False\<rparr>])
              (activity_documents st)\<rparr>))"

definition get_activity_documents :: "string \<Rightarrow> store \<Rightarrow> http_exception + doc list" where
  "get_activity_documents activity_name st =
    (if map_of (activities st) activity_name = None
     then Inl (HTTPException 404 ''Activity not found'')
     else Inr (documents_get (activity_documents st) activity_name))"

text \<open>
  The loop of \<^verbatim>\<open>verify_document\<close>: it walks the list from the front and stops at the
  first document whose email and filename are the ones asked for, which it marks.
  \<open>None\<close> is the loop running off the end of the list.
\<close>

fun verify_loop :: "string \<Rightarrow> string \<Rightarrow> doc list \<Rightarrow> doc list option" where
  "verify_loop email' filename' [] = None"
| "verify_loop email' filename' (d # docs) =
    (if email d = email' \<and> filename d = filename'
     then Some (d\<lparr>verified := True\<rparr> # docs)
     else map_option ((#) d) (verify_loop email' filename' docs))"

definition verify_document :: "string \<Rightarrow> string \<Rightarrow> string \<Rightarrow> store \<Rightarrow> string response" where
  "verify_document activity_name email' filename' st =
    (case verify_loop email' filename' (documents_get (activity_documents st) activity_name) of
       Some docs' \<Rightarrow>
         (Inr (''Verified '' @ filename' @ '' for '' @ email' @ '' in '' @ activity_name),
          st\<lparr>activity_documents := AList.update activity_name docs' (activity_documents st)\<rparr>)
     | None \<Rightarrow> (Inl (HTTPException 404 ''Document not found''), st))"

section \<open>Sorted views (lines 175 to 212)\<close>

text \<open>
  \<^verbatim>\<open>list.sort(key=..., reverse=...)\<close> is Python's built-in sort. It is stable, and with
  \<^verbatim>\<open>reverse=True\<close> it reverses the list, sorts it and reverses it again, so entries
  with equal keys keep their order in both directions. \<open>sort_key\<close> is the stable
  insertion sort of the HOL library.
\<close>

definition list_sort :: "('a \<Rightarrow> 'k::linorder) \<Rightarrow> bool \<Rightarrow> 'a list \<Rightarrow> 'a list" where
  "list_sort key reverse xs =
    (if reverse then rev (sort_key key (rev xs)) else sort_key key xs)"

text \<open>
  Python's \<open>/\<close> on two integers. The float it returns is the exact quotient rounded to
  the nearest double; the model keeps the exact quotient, a rational number, so it has
  neither the rounding nor the \<^verbatim>\<open>OverflowError\<close> of a quotient beyond the doubles.
\<close>

definition truediv :: "int \<Rightarrow> int \<Rightarrow> rat" where
  "truediv a b = of_int a / of_int b"

text \<open>\<^verbatim>\<open>avg_score\<close>, the inner function of \<^verbatim>\<open>get_sorted_activities\<close>.\<close>

definition avg_score :: "(string \<times> doc list) list \<Rightarrow> string \<Rightarrow> rat" where
  "avg_score documents activity_name =
    (let docs = documents_get documents activity_name;
         scores = map score (filter verified docs)
     in if scores \<noteq> [] then truediv (sum_list scores) (int (length scores)) else 0)"

text \<open>\<^verbatim>\<open>{"name": k, **v}\<close>: the activity's fields and its name.\<close>

record activity_view = activity +
  name :: string

definition view :: "string \<times> activity \<Rightarrow> activity_view" where
  "view x = (case x of (k, v) \<Rightarrow>
     \<lparr>description = description v, schedule = schedule v,
      max_participants = max_participants v, participants = participants v, name = k\<rparr>)"

text \<open>
  \<^verbatim>\<open>sort_by\<close> is a \<^verbatim>\<open>str\<close>; the chain of \<^verbatim>\<open>if\<close>/\<^verbatim>\<open>elif\<close> has no \<^verbatim>\<open>else\<close>, so any other
  string leaves \<^verbatim>\<open>items\<close> as \<^verbatim>\<open>list(activities.items())\<close> built it. The handler has no
  \<^verbatim>\<open>raise\<close>.
\<close>

definition get_sorted_activities ::
  "string \<Rightarrow> bool \<Rightarrow> store \<Rightarrow> http_exception + activity_view list" where
  "get_sorted_activities sort_by descending st =
    (let items = activities st;
         items' =
           (if sort_by = ''name'' then list_sort fst descending items
            else if sort_by = ''participants''
              then list_sort (\<lambda>x. length (participants (snd x))) descending items
            else if sort_by = ''score''
              then list_sort (\<lambda>x. avg_score (activity_documents st) (fst x)) descending items
            else items)
     in Inr (map view items'))"

text \<open>The entries \<^verbatim>\<open>{"email": email, "score": score}\<close>; \<^verbatim>\<open>None\<close> is \<open>None\<close>.\<close>

record participant_info =
  info_email :: string
  info_score :: "int option"

text \<open>The inner loop with its \<^verbatim>\<open>break\<close>: the score of the first verified document of the email.\<close>

fun first_verified_score :: "string \<Rightarrow> doc list \<Rightarrow> int option" where
  "first_verified_score email' [] = None"
| "first_verified_score email' (d # docs) =
    (if email d = email' \<and> verified d then Some (score d)
     else first_verified_score email' docs)"

text \<open>\<^verbatim>\<open>lambda x: (x["score"] if x["score"] is not None else 0)\<close>.\<close>

definition score_key :: "participant_info \<Rightarrow> int" where
  "score_key x = (case info_score x of Some s \<Rightarrow> s | None \<Rightarrow> 0)"

text \<open>The loop that fills \<^verbatim>\<open>info\<close>: one entry per participant, in the participants' order.\<close>

definition build_info :: "doc list \<Rightarrow> string list \<Rightarrow> participant_info list" where
  "build_info docs participants' =
    map (\<lambda>email'. \<lparr>info_email = email', info_score = first_verified_score email' docs\<rparr>)
      participants'"

definition get_sorted_participants ::
  "string \<Rightarrow> string \<Rightarrow> bool \<Rightarrow> store \<Rightarrow> http_exception + participant_info list" where
  "get_sorted_participants activity_name sort_by descending st =
    (case map_of (activities st) activity_name of
       None \<Rightarrow> Inl (HTTPException 404 ''Activity not found'')
     | Some activity \<Rightarrow>
         let docs = documents_get (activity_documents st) activity_name;
             info = build_info docs (participants activity);
             info' =
               (if sort_by = ''name'' then list_sort info_email descending info
                else if sort_by = ''score'' then list_sort score_key descending info
                else info)
         in Inr info')"

section \<open>Requests and reachable stores\<close>

text \<open>
  One constructor per route. \<open>handle\<close> is the store a request leaves behind: the routes
  that only read (\<^verbatim>\<open>/\<close>, \<^verbatim>\<open>/activities\<close>, the documents of an activity and the two
  sorted views, which sort copies) leave it as it is.
\<close>

datatype request =
    Root
  | GetActivities
  | Signup string string
  | Unregister string string
  | Upload string string string string int
  | GetDocuments string
  | Verify string string string
  | GetSortedActivities string bool
  | GetSortedParticipants string string bool

fun handle :: "request \<Rightarrow> store \<Rightarrow> store" where
  "handle (Signup a e) st = snd (signup_for_activity a e st)"
| "handle (Unregister a e) st = snd (unregister_from_activity a e st)"
| "handle (Upload a e f c s) st = snd (upload_document a e f c s st)"
| "handle (Verify a e f) st = snd (verify_document a e f st)"
| "handle _ st = st"

inductive reachable :: "store \<Rightarrow> bool" where
  start: "reachable seed"
| request: "reachable st \<Longrightarrow> reachable (handle r st)"

definition unique_participants :: "store \<Rightarrow> bool" where
  "unique_participants st \<longleftrightarrow> list_all (\<lambda>x. distinct (participants (snd x))) (activities st)"

section \<open>Vocabulary of the properties\<close>

text \<open>
  The order a sorted view is in: ascending keys, or descending keys when
  \<^verbatim>\<open>descending\<close> is set.
\<close>

definition in_order :: "bool \<Rightarrow> 'k::linorder \<Rightarrow> 'k \<Rightarrow> bool" where
  "in_order descending a b = (if descending then b \<le> a else a \<le> b)"

text \<open>
  A small store to evaluate the handlers on. Chess Club is over its capacity; michael has
  no verified document and noah a verified score of 0; the pair (michael, cert.pdf) was
  uploaded twice; Art Club and Drama Club tie on the number of participants and on the
  average score; Robotics has a document and is no activity.
\<close>

definition chess_club :: activity where
  "chess_club =
    \<lparr>description = ''Learn strategies and compete in chess tournaments'',
     schedule = ''Fridays, 3:30 PM - 5:00 PM'',
     max_participants = 2,
     participants = [''michael@mergington.edu'', ''daniel@mergington.edu'',
                     ''zoe@mergington.edu'', ''noah@mergington.edu'']\<rparr>"

definition art_club :: activity where
  "art_club =
    \<lparr>description = ''Explore your creativity through painting and drawing'',
     schedule = ''Thursdays, 3:30 PM - 5:00 PM'',
     max_participants = 15,
     participants = [''amelia@mergington.edu'']\<rparr>"

definition drama_club :: activity where
  "drama_club =
    \<lparr>description = ''Act, direct, and produce plays and performances'',
     schedule = ''Mondays and Wednesdays, 4:00 PM - 5:30 PM'',
     max_participants = 20,
     participants = [''ella@mergington.edu'']\<rparr>"

definition chess_docs :: "doc list" where
  "chess_docs =
    [\<lparr>email = ''daniel@mergington.edu'', filename = ''cert.pdf'',
      content_type = ''application/pdf'', score = 4, verified = True\<rparr>,
     \<lparr>email = ''michael@mergington.edu'', filename = ''cert.pdf'',
      content_type = ''application/pdf'', score = 7, verified = False\<rparr>,
     \<lparr>email = ''zoe@mergington.edu'', filename = ''medal.png'',
      content_type = ''image/png'', score = - 3, verified = True\<rparr>,
     \<lparr>email = ''michael@mergington.edu'', filename = ''cert.pdf'',
      content_type = ''application/pdf'', score = 9, verified = False\<rparr>,
     \<lparr>email = ''daniel@mergington.edu'', filename = ''medal.png'',
      content_type = ''image/png'', score = 6, verified = True\<rparr>,
     \<lparr>email = ''noah@mergington.edu'', filename = ''medal.png'',
      content_type = ''image/png'', score = 0, verified = True\<rparr>]"

definition drama_docs :: "doc list" where
  "drama_docs =
    [\<lparr>email = ''ella@mergington.edu'', filename = ''play.pdf'',
      content_type = ''application/pdf'', score = 100, verified = False\<rparr>]"

definition robotics_docs :: "doc list" where
  "robotics_docs =
    [\<lparr>email = ''zoe@mergington.edu'', filename = ''robot.pdf'',
      content_type = ''application/pdf'', score = 5, verified = False\<rparr>]"

definition example_store :: store where
  "example_store =
    \<lparr>activities =
       [(''Chess Club'', chess_club), (''Art Club'', art_club), (''Drama Club'', drama_club)],
     activity_documents =
       [(''Chess Club'', chess_docs), (''Drama Club'', drama_docs),
        (''Robotics'', robotics_docs)]\<rparr>"

section \<open>Association lists and the sort\<close>

lemma update_keys_present:
  "map_of al k = Some v \<Longrightarrow> map fst (AList.update k v' al) = map fst al"
  by (induction al) (auto split: if_splits)

lemma map_of_update: "map_of (AList.update k v al) = (map_of al)(k \<mapsto> v)"
  by (rule AList.update_conv')

lemma list_all_update:
  "list_all P al \<Longrightarrow> P (k, v) \<Longrightarrow> list_all P (AList.update k v al)"
  by (induction al) auto

lemma list_all_map_of:
  "list_all P al \<Longrightarrow> map_of al k = Some v \<Longrightarrow> P (k, v)"
  by (auto simp: list_all_iff dest: map_of_SomeD)

lemma remove1_split:
  "e \<in> set ps \<Longrightarrow> \<exists>pre post. ps = pre @ e # post \<and> e \<notin> set pre \<and> remove1 e ps = pre @ post"
proof (induction ps)
  case Nil
  then show ?case by simp
next
  case (Cons p ps)
  show ?case
  proof (cases "p = e")
    case True
    then have "p # ps = [] @ e # ps \<and> e \<notin> set [] \<and> remove1 e (p # ps) = [] @ ps" by simp
    then show ?thesis by blast
  next
    case False
    with Cons obtain pre post where
      "ps = pre @ e # post" "e \<notin> set pre" "remove1 e ps = pre @ post" by auto
    with False have "p # ps = (p # pre) @ e # post \<and> e \<notin> set (p # pre) \<and>
        remove1 e (p # ps) = (p # pre) @ post" by auto
    then show ?thesis by blast
  qed
qed

lemma documents_get_update:
  "documents_get (AList.update n v D) m = (if m = n then v else documents_get D m)"
  by (simp add: documents_get_def map_of_update)

lemma documents_get_nonempty:
  "documents_get D n \<noteq> [] \<Longrightarrow> map_of D n = Some (documents_get D n)"
  by (auto simp: documents_get_def split: option.splits)

text \<open>
  What \<open>list_sort\<close> keeps in both directions: the elements, the order of the keys, and the
  order of the elements whose keys are equal.
\<close>

lemma mset_list_sort: "mset (list_sort key r xs) = mset xs"
  by (simp add: list_sort_def)

lemma length_list_sort: "length (list_sort key r xs) = length xs"
  by (simp add: list_sort_def)


lemma sorted_list_sort:
  "sorted_wrt (\<lambda>x y. in_order r (key x) (key y)) (list_sort key r xs)"
proof (cases r)
  case False
  have "sorted (map key (sort_key key xs))" by (rule sorted_sort_key)
  then have "sorted_wrt (\<lambda>x y. key x \<le> key y) (sort_key key xs)"
    by (simp add: sorted_wrt_map)
  with False show ?thesis by (simp add: list_sort_def in_order_def)
next
  case True
  have "sorted (map key (sort_key key (rev xs)))" by (rule sorted_sort_key)
  then have "sorted_wrt (\<lambda>x y. key x \<le> key y) (sort_key key (rev xs))"
    by (simp add: sorted_wrt_map)
  then have "sorted_wrt (\<lambda>x y. key y \<le> key x) (rev (sort_key key (rev xs)))"
    by (simp add: sorted_wrt_rev)
  with True show ?thesis by (simp add: list_sort_def in_order_def)
qed





section \<open>The example store\<close>

lemma example_activities:
  "map_of (activities example_store) ''Chess Club'' = Some chess_club"
  "map_of (activities example_store) ''Robotics'' = None"
  "map fst (activities example_store) = [''Chess Club'', ''Art Club'', ''Drama Club'']"
  by (simp_all add: example_store_def)


lemma example_documents:
  "documents_get (activity_documents example_store) ''Chess Club'' = chess_docs"
  "documents_get (activity_documents example_store) ''Drama Club'' = drama_docs"
  "documents_get (activity_documents example_store) ''Robotics'' = robotics_docs"
  "map_of (activity_documents example_store) ''Art Club'' = None"
  by (simp_all add: example_store_def documents_get_def)

lemma chess_club_participants:
  "participants chess_club = [''michael@mergington.edu'', ''daniel@mergington.edu'',
     ''zoe@mergington.edu'', ''noah@mergington.edu'']"
  "max_participants chess_club = 2"
  by (simp_all add: chess_club_def)

lemma example_info:
  "build_info chess_docs (participants chess_club) =
     [\<lparr>info_email = ''michael@mergington.edu'', info_score = None\<rparr>,
      \<lparr>info_email = ''daniel@mergington.edu'', info_score = Some 4\<rparr>,
      \<lparr>info_email = ''zoe@mergington.edu'', info_score = Some (- 3)\<rparr>,
      \<lparr>info_email = ''noah@mergington.edu'', info_score = Some 0\<rparr>]"
  by (simp add: build_info_def chess_club_participants chess_docs_def)

section \<open>Activities sorted by score\<close>








section \<open>Verifying a document\<close>

lemma verify_loop_None:
  "\<forall>d\<in>set docs. \<not> (email d = e \<and> filename d = f) \<Longrightarrow> verify_loop e f docs = None"
  by (induction docs) auto

lemma verify_loop_Some:
  "\<forall>x\<in>set pre. \<not> (email x = e \<and> filename x = f) \<Longrightarrow> email d = e \<and> filename d = f \<Longrightarrow>
   verify_loop e f (pre @ d # post) = Some (pre @ d\<lparr>verified := True\<rparr> # post)"
  by (induction pre) auto

lemma verify_loop_again:
  "verify_loop e f docs = Some docs' \<Longrightarrow> verify_loop e f docs' = Some docs'"
proof (induction docs arbitrary: docs')
  case Nil
  then show ?case by simp
next
  case (Cons d docs)
  show ?case
  proof (cases "email d = e \<and> filename d = f")
    case True
    with Cons.prems show ?thesis by auto
  next
    case False
    with Cons.prems obtain r where r: "verify_loop e f docs = Some r" "docs' = d # r"
      by auto
    from Cons.IH [OF r(1)] False r(2) show ?thesis by auto
  qed
qed

lemma verify_not_found:
  assumes "\<forall>d\<in>set (documents_get (activity_documents st) n). \<not> (email d = e \<and> filename d = f)"
  shows "verify_document n e f st = (Inl (HTTPException 404 ''Document not found''), st)"
  using verify_loop_None [OF assms] by (simp add: verify_document_def)

lemma verify_success:
  assumes docs: "documents_get (activity_documents st) n = pre @ d # post"
    and pre: "\<forall>x\<in>set pre. \<not> (email x = e \<and> filename x = f)"
    and d: "email d = e \<and> filename d = f"
  shows "\<exists>msg st'. verify_document n e f st = (Inr msg, st') \<and>
      activities st' = activities st \<and>
      documents_get (activity_documents st') n = pre @ d\<lparr>verified := True\<rparr> # post \<and>
      (\<forall>m. m \<noteq> n \<longrightarrow>
         documents_get (activity_documents st') m = documents_get (activity_documents st) m) \<and>
      map fst (activity_documents st') = map fst (activity_documents st)"
proof -
  define docs' where "docs' = pre @ d\<lparr>verified := True\<rparr> # post"
  define st' where
    "st' = st\<lparr>activity_documents := AList.update n docs' (activity_documents st)\<rparr>"
  have l: "verify_loop e f (documents_get (activity_documents st) n) = Some docs'"
    unfolding docs docs'_def using pre d by (rule verify_loop_Some)
  then have r: "verify_document n e f st =
      (Inr (''Verified '' @ f @ '' for '' @ e @ '' in '' @ n), st')"
    by (simp add: verify_document_def st'_def)
  have "documents_get (activity_documents st) n \<noteq> []"
    by (simp add: docs)
  then have "map_of (activity_documents st) n = Some (documents_get (activity_documents st) n)"
    by (rule documents_get_nonempty)
  then have k: "map fst (activity_documents st') = map fst (activity_documents st)"
    by (simp add: st'_def update_keys_present)
  have a: "activities st' = activities st"
    by (simp add: st'_def)
  have g: "documents_get (activity_documents st') n = docs'"
    by (simp add: st'_def documents_get_update)
  have o: "\<forall>m. m \<noteq> n \<longrightarrow>
      documents_get (activity_documents st') m = documents_get (activity_documents st) m"
    by (simp add: st'_def documents_get_update)
  from r a g o k show ?thesis unfolding docs'_def by blast
qed

text \<open>
  Claim C2. \<^verbatim>\<open>verify_document\<close> marks the first document of the activity's list whose
  email and filename are the ones given: the documents before it and after it, the lists
  of the other names, the keys of the documents and the activities stay as they are. With
  no such document it answers 404 and the store is unchanged. Nothing is asked of the
  activities: in the example store Robotics is no activity and its document is verified.
\<close>

theorem verify_document_first_match:
  "((\<forall>d\<in>set (documents_get (activity_documents st) n). \<not> (email d = e \<and> filename d = f)) \<longrightarrow>
      verify_document n e f st = (Inl (HTTPException 404 ''Document not found''), st)) \<and>
   (\<forall>pre d post.
      documents_get (activity_documents st) n = pre @ d # post \<and>
      (\<forall>x\<in>set pre. \<not> (email x = e \<and> filename x = f)) \<and> email d = e \<and> filename d = f \<longrightarrow>
      (\<exists>msg st'. verify_document n e f st = (Inr msg, st') \<and>
         activities st' = activities st \<and>
         documents_get (activity_documents st') n = pre @ d\<lparr>verified := True\<rparr> # post \<and>
         (\<forall>m. m \<noteq> n \<longrightarrow>
            documents_get (activity_documents st') m =
              documents_get (activity_documents st) m) \<and>
         map fst (activity_documents st') = map fst (activity_documents st)))"
proof (intro conjI allI impI)
  assume "\<forall>d\<in>set (documents_get (activity_documents st) n). \<not> (email d = e \<and> filename d = f)"
  then show "verify_document n e f st = (Inl (HTTPException 404 ''Document not found''), st)"
    by (rule verify_not_found)
next
  fix pre d post
  assume "documents_get (activity_documents st) n = pre @ d # post \<and>
      (\<forall>x\<in>set pre. \<not> (email x = e \<and> filename x = f)) \<and> email d = e \<and> filename d = f"
  then show "\<exists>msg st'. verify_document n e f st = (Inr msg, st') \<and>
         activities st' = activities st \<and>
         documents_get (activity_documents st') n = pre @ d\<lparr>verified := True\<rparr> # post \<and>
         (\<forall>m. m \<noteq> n \<longrightarrow>
            documents_get (activity_documents st') m =
              documents_get (activity_documents st) m) \<and>
         map fst (activity_documents st') = map fst (activity_documents st)"
    using verify_success [of st n pre d post e f] by blast
qed

theorem verify_document_first_match_witness:
  "list_all (\<lambda>d. \<not> (email d = ''ada@mergington.edu'' \<and> filename d = ''cert.pdf''))
     (documents_get (activity_documents example_store) ''Chess Club'') \<and>
   verify_document ''Chess Club'' ''ada@mergington.edu'' ''cert.pdf'' example_store =
     (Inl (HTTPException 404 ''Document not found''), example_store) \<and>
   (\<exists>msg st'. verify_document ''Chess Club'' ''michael@mergington.edu'' ''cert.pdf''
        example_store = (Inr msg, st') \<and>
      activities st' = activities example_store \<and>
      map verified (documents_get (activity_documents st') ''Chess Club'') =
        [True, True, True, False, True, True] \<and>
      map score (documents_get (activity_documents st') ''Chess Club'') =
        [4, 7, - 3, 9, 6, 0] \<and>
      documents_get (activity_documents st') ''Drama Club'' = drama_docs) \<and>
   map_of (activities example_store) ''Robotics'' = None \<and>
   (\<exists>msg st'. verify_document ''Robotics'' ''zoe@mergington.edu'' ''robot.pdf''
        example_store = (Inr msg, st') \<and>
      map verified (documents_get (activity_documents st') ''Robotics'') = [True])"
proof -
  let ?chess = "documents_get (activity_documents example_store) ''Chess Club''"
  let ?robotics = "documents_get (activity_documents example_store) ''Robotics''"
  have none: "\<forall>d\<in>set ?chess. \<not> (email d = ''ada@mergington.edu'' \<and> filename d = ''cert.pdf'')"
    by (simp add: example_documents chess_docs_def)
  then have n1: "list_all (\<lambda>d. \<not> (email d = ''ada@mergington.edu'' \<and> filename d = ''cert.pdf''))
      ?chess"
    by (simp only: list_all_iff)
  from none verify_document_first_match
      [of example_store "''Chess Club''" "''ada@mergington.edu''" "''cert.pdf''"]
  have n2: "verify_document ''Chess Club'' ''ada@mergington.edu'' ''cert.pdf'' example_store =
      (Inl (HTTPException 404 ''Document not found''), example_store)"
    by blast
  have split: "?chess = take 1 chess_docs @ chess_docs ! 1 # drop 2 chess_docs"
    by (simp add: example_documents chess_docs_def)
  have pre: "\<forall>x\<in>set (take 1 chess_docs).
      \<not> (email x = ''michael@mergington.edu'' \<and> filename x = ''cert.pdf'')"
    by (simp add: chess_docs_def)
  have hit: "email (chess_docs ! 1) = ''michael@mergington.edu'' \<and>
      filename (chess_docs ! 1) = ''cert.pdf''"
    by (simp add: chess_docs_def)
  from split pre hit verify_document_first_match
      [of example_store "''Chess Club''" "''michael@mergington.edu''" "''cert.pdf''"]
  obtain msg st' where v:
    "verify_document ''Chess Club'' ''michael@mergington.edu'' ''cert.pdf'' example_store =
       (Inr msg, st')"
    "activities st' = activities example_store"
    "documents_get (activity_documents st') ''Chess Club'' =
       take 1 chess_docs @ (chess_docs ! 1)\<lparr>verified := True\<rparr> # drop 2 chess_docs"
    "\<forall>m. m \<noteq> ''Chess Club'' \<longrightarrow> documents_get (activity_documents st') m =
       documents_get (activity_documents example_store) m"
    by blast
  from v(3) have v3: "map verified (documents_get (activity_documents st') ''Chess Club'') =
      [True, True, True, False, True, True]"
    by (simp add: chess_docs_def)
  from v(3) have v4: "map score (documents_get (activity_documents st') ''Chess Club'') =
      [4, 7, - 3, 9, 6, 0]"
    by (simp add: chess_docs_def)
  from v(4) have v5: "documents_get (activity_documents st') ''Drama Club'' = drama_docs"
    by (simp add: example_documents)
  have rsplit: "?robotics = [] @ robotics_docs ! 0 # []"
    by (simp add: example_documents robotics_docs_def)
  have rhit: "email (robotics_docs ! 0) = ''zoe@mergington.edu'' \<and>
      filename (robotics_docs ! 0) = ''robot.pdf''"
    by (simp add: robotics_docs_def)
  have rpre: "\<forall>x\<in>set []. \<not> (email x = ''zoe@mergington.edu'' \<and> filename x = ''robot.pdf'')"
    by simp
  from rsplit rpre rhit verify_document_first_match
      [of example_store "''Robotics''" "''zoe@mergington.edu''" "''robot.pdf''"]
  obtain rmsg rst where r:
    "verify_document ''Robotics'' ''zoe@mergington.edu'' ''robot.pdf'' example_store =
       (Inr rmsg, rst)"
    "documents_get (activity_documents rst) ''Robotics'' =
       [] @ (robotics_docs ! 0)\<lparr>verified := True\<rparr> # []"
    by blast
  from r(2) have r2: "map verified (documents_get (activity_documents rst) ''Robotics'') = [True]"
    by simp
  from n1 n2 v(1,2) v3 v4 v5 example_activities(2) r(1) r2 show ?thesis by simp
qed

section \<open>Signing up and unregistering\<close>

lemma signup_not_found:
  "map_of (activities st) n = None \<Longrightarrow>
   signup_for_activity n e st = (Inl (HTTPException 404 ''Activity not found''), st)"
  by (simp add: signup_for_activity_def)

lemma signup_conflict:
  "map_of (activities st) n = Some a \<Longrightarrow> e \<in> set (participants a) \<Longrightarrow>
   signup_for_activity n e st = (Inl (HTTPException 400 ''Student is already signed up''), st)"
  by (simp add: signup_for_activity_def)

lemma signup_success:
  assumes "map_of (activities st) n = Some a" and "e \<notin> set (participants a)"
  shows "\<exists>msg st'. signup_for_activity n e st = (Inr msg, st') \<and>
           activity_documents st' = activity_documents st \<and>
           map fst (activities st') = map fst (activities st) \<and>
           map_of (activities st') =
             (map_of (activities st))(n \<mapsto> a\<lparr>participants := participants a @ [e]\<rparr>)"
  using assms by (simp add: signup_for_activity_def update_keys_present map_of_update)

text \<open>
  Claim C3. \<^verbatim>\<open>signup_for_activity\<close> answers 404 for a name that is no activity and 400
  for an email that is already a participant, and leaves the store unchanged in both
  cases. Otherwise it succeeds and puts the email last in the participants of that
  activity; the other activities, the order of the activities and the documents stay as
  they are. \<^verbatim>\<open>max_participants\<close> is not read: the example signs up a fifth participant
  for an activity whose capacity is 2.
\<close>

theorem signup_for_activity_spec:
  "(map_of (activities st) n = None \<longrightarrow>
      signup_for_activity n e st = (Inl (HTTPException 404 ''Activity not found''), st)) \<and>
   (\<forall>a. map_of (activities st) n = Some a \<and> e \<in> set (participants a) \<longrightarrow>
      signup_for_activity n e st =
        (Inl (HTTPException 400 ''Student is already signed up''), st)) \<and>
   (\<forall>a. map_of (activities st) n = Some a \<and> e \<notin> set (participants a) \<longrightarrow>
      (\<exists>msg st'. signup_for_activity n e st = (Inr msg, st') \<and>
         activity_documents st' = activity_documents st \<and>
         map fst (activities st') = map fst (activities st) \<and>
         map_of (activities st') =
           (map_of (activities st))(n \<mapsto> a\<lparr>participants := participants a @ [e]\<rparr>)))"
  using signup_not_found signup_conflict signup_success by blast

theorem signup_for_activity_spec_witness:
  "map_of (activities example_store) ''Robotics'' = None \<and>
   signup_for_activity ''Robotics'' ''ada@mergington.edu'' example_store =
     (Inl (HTTPException 404 ''Activity not found''), example_store) \<and>
   map_of (activities example_store) ''Chess Club'' = Some chess_club \<and>
   ''zoe@mergington.edu'' \<in> set (participants chess_club) \<and>
   signup_for_activity ''Chess Club'' ''zoe@mergington.edu'' example_store =
     (Inl (HTTPException 400 ''Student is already signed up''), example_store) \<and>
   ''ada@mergington.edu'' \<notin> set (participants chess_club) \<and>
   max_participants chess_club < int (length (participants chess_club)) \<and>
   (\<exists>msg st'. signup_for_activity ''Chess Club'' ''ada@mergington.edu'' example_store =
        (Inr msg, st') \<and>
      activity_documents st' = activity_documents example_store \<and>
      map fst (activities st') = map fst (activities example_store) \<and>
      map_of (activities st') = (map_of (activities example_store))
        (''Chess Club'' \<mapsto> chess_club\<lparr>participants :=
           participants chess_club @ [''ada@mergington.edu'']\<rparr>))"
proof -
  have z: "''zoe@mergington.edu'' \<in> set (participants chess_club)"
    by (simp add: chess_club_participants)
  have a: "''ada@mergington.edu'' \<notin> set (participants chess_club)"
    by (simp add: chess_club_participants)
  have c: "max_participants chess_club < int (length (participants chess_club))"
    by (simp add: chess_club_participants)
  from example_activities(1,2) z a c
    signup_for_activity_spec [of example_store "''Robotics''" "''ada@mergington.edu''"]
    signup_for_activity_spec [of example_store "''Chess Club''" "''zoe@mergington.edu''"]
    signup_for_activity_spec [of example_store "''Chess Club''" "''ada@mergington.edu''"]
  show ?thesis by blast
qed

lemma unregister_not_found:
  "map_of (activities st) n = None \<Longrightarrow>
   unregister_from_activity n e st = (Inl (HTTPException 404 ''Activity not found''), st)"
  by (simp add: unregister_from_activity_def)

lemma unregister_conflict:
  "map_of (activities st) n = Some a \<Longrightarrow> e \<notin> set (participants a) \<Longrightarrow>
   unregister_from_activity n e st =
     (Inl (HTTPException 400 ''Student is not signed up for this activity''), st)"
  by (simp add: unregister_from_activity_def)

lemma unregister_success:
  assumes "map_of (activities st) n = Some a" and "e \<in> set (participants a)"
  shows "\<exists>msg st' pre post. unregister_from_activity n e st = (Inr msg, st') \<and>
           participants a = pre @ e # post \<and> e \<notin> set pre \<and>
           activity_documents st' = activity_documents st \<and>
           map fst (activities st') = map fst (activities st) \<and>
           map_of (activities st') =
             (map_of (activities st))(n \<mapsto> a\<lparr>participants := pre @ post\<rparr>)"
proof -
  from remove1_split [OF assms(2)] obtain pre post where
    s: "participants a = pre @ e # post" "e \<notin> set pre"
       "remove1 e (participants a) = pre @ post" by blast
  define st' where
    "st' = st\<lparr>activities := AList.update n (a\<lparr>participants := pre @ post\<rparr>) (activities st)\<rparr>"
  have r: "unregister_from_activity n e st = (Inr (''Unregistered '' @ e @ '' from '' @ n), st')"
    using assms s(3) by (simp add: unregister_from_activity_def st'_def)
  have d: "activity_documents st' = activity_documents st"
    by (simp add: st'_def)
  have k: "map fst (activities st') = map fst (activities st)"
    using assms(1) by (simp add: st'_def update_keys_present)
  have m: "map_of (activities st') =
      (map_of (activities st))(n \<mapsto> a\<lparr>participants := pre @ post\<rparr>)"
    by (simp add: st'_def map_of_update)
  from r s(1,2) d k m show ?thesis by blast
qed

text \<open>
  Claim C4. \<^verbatim>\<open>unregister_from_activity\<close> answers 404 for a name that is no activity and
  400 for an email that is no participant, and leaves the store unchanged in both cases.
  Otherwise the participants are \<open>pre @ email # post\<close> with the email not in \<open>pre\<close>, and
  they become \<open>pre @ post\<close>: one occurrence goes, the rest keeps its order.
\<close>

theorem unregister_from_activity_spec:
  "(map_of (activities st) n = None \<longrightarrow>
      unregister_from_activity n e st = (Inl (HTTPException 404 ''Activity not found''), st)) \<and>
   (\<forall>a. map_of (activities st) n = Some a \<and> e \<notin> set (participants a) \<longrightarrow>
      unregister_from_activity n e st =
        (Inl (HTTPException 400 ''Student is not signed up for this activity''), st)) \<and>
   (\<forall>a. map_of (activities st) n = Some a \<and> e \<in> set (participants a) \<longrightarrow>
      (\<exists>msg st' pre post. unregister_from_activity n e st = (Inr msg, st') \<and>
         participants a = pre @ e # post \<and> e \<notin> set pre \<and>
         activity_documents st' = activity_documents st \<and>
         map fst (activities st') = map fst (activities st) \<and>
         map_of (activities st') =
           (map_of (activities st))(n \<mapsto> a\<lparr>participants := pre @ post\<rparr>)))"
  using unregister_not_found unregister_conflict unregister_success by blast

theorem unregister_from_activity_spec_witness:
  "map_of (activities example_store) ''Robotics'' = None \<and>
   unregister_from_activity ''Robotics'' ''zoe@mergington.edu'' example_store =
     (Inl (HTTPException 404 ''Activity not found''), example_store) \<and>
   map_of (activities example_store) ''Chess Club'' = Some chess_club \<and>
   ''ada@mergington.edu'' \<notin> set (participants chess_club) \<and>
   unregister_from_activity ''Chess Club'' ''ada@mergington.edu'' example_store =
     (Inl (HTTPException 400 ''Student is not signed up for this activity''), example_store) \<and>
   ''daniel@mergington.edu'' \<in> set (participants chess_club) \<and>
   (\<exists>msg st' pre post.
      unregister_from_activity ''Chess Club'' ''daniel@mergington.edu'' example_store =
        (Inr msg, st') \<and>
      participants chess_club = pre @ ''daniel@mergington.edu'' # post \<and>
      ''daniel@mergington.edu'' \<notin> set pre \<and>
      activity_documents st' = activity_documents example_store \<and>
      map fst (activities st') = map fst (activities example_store) \<and>
      map_of (activities st') = (map_of (activities example_store))
        (''Chess Club'' \<mapsto> chess_club\<lparr>participants := pre @ post\<rparr>))"
proof -
  have a: "''ada@mergington.edu'' \<notin> set (participants chess_club)"
    by (simp add: chess_club_participants)
  have d: "''daniel@mergington.edu'' \<in> set (participants chess_club)"
    by (simp add: chess_club_participants)
  from example_activities(1,2) a d
    unregister_from_activity_spec [of example_store "''Robotics''" "''zoe@mergington.edu''"]
    unregister_from_activity_spec [of example_store "''Chess Club''" "''ada@mergington.edu''"]
    unregister_from_activity_spec [of example_store "''Chess Club''" "''daniel@mergington.edu''"]
  show ?thesis by blast
qed

section \<open>Participants sorted by name or score\<close>

lemma first_verified_score_None:
  "\<forall>x\<in>set docs. \<not> (email x = e \<and> verified x) \<Longrightarrow> first_verified_score e docs = None"
  by (induction docs) auto

lemma first_verified_score_Some:
  "\<forall>x\<in>set pre. \<not> (email x = e \<and> verified x) \<Longrightarrow> email d = e \<and> verified d \<Longrightarrow>
   first_verified_score e (pre @ d # post) = Some (score d)"
  by (induction pre) auto

lemma build_info_emails: "map info_email (build_info docs ps) = ps"
  by (simp add: build_info_def comp_def)

lemma build_info_scores:
  "x \<in> set (build_info docs ps) \<Longrightarrow> info_score x = first_verified_score (info_email x) docs"
  by (auto simp: build_info_def)

lemma get_sorted_participants_entries:
  assumes "map_of (activities st) n = Some a"
  shows "\<exists>out. get_sorted_participants n sort_by descending st = Inr out \<and>
      mset (map info_email out) = mset (participants a) \<and>
      length out = length (participants a) \<and>
      (\<forall>x\<in>set out. info_score x =
         first_verified_score (info_email x) (documents_get (activity_documents st) n)) \<and>
      (sort_by = ''score'' \<longrightarrow>
         sorted_wrt (\<lambda>x y. in_order descending (score_key x) (score_key y)) out) \<and>
      (sort_by = ''name'' \<longrightarrow>
         sorted_wrt (\<lambda>x y. in_order descending (info_email x) (info_email y)) out)"
proof -
  let ?docs = "documents_get (activity_documents st) n"
  let ?info = "build_info ?docs (participants a)"
  define out where
    "out = (if sort_by = ''name'' then list_sort info_email descending ?info
            else if sort_by = ''score'' then list_sort score_key descending ?info
            else ?info)"
  have r: "get_sorted_participants n sort_by descending st = Inr out"
    using assms by (simp add: get_sorted_participants_def out_def)
  have m: "mset out = mset ?info"
    by (simp add: out_def mset_list_sort)
  then have "mset (map info_email out) = mset (map info_email ?info)"
    by (simp only: mset_map)
  then have e: "mset (map info_email out) = mset (participants a)"
    by (simp only: build_info_emails)
  then have l: "length out = length (participants a)"
    using mset_eq_length by fastforce
  from m have "set out = set ?info"
    by (rule mset_eq_setD)
  then have s: "\<forall>x\<in>set out. info_score x = first_verified_score (info_email x) ?docs"
    by (simp add: build_info_scores)
  have k: "sort_by = ''score'' \<longrightarrow>
      sorted_wrt (\<lambda>x y. in_order descending (score_key x) (score_key y)) out"
    by (simp add: out_def sorted_list_sort)
  have nm: "sort_by = ''name'' \<longrightarrow>
      sorted_wrt (\<lambda>x y. in_order descending (info_email x) (info_email y)) out"
    by (simp add: out_def sorted_list_sort)
  from r e l s k nm show ?thesis by blast
qed

lemma example_sorted_participants:
  "get_sorted_participants ''Chess Club'' ''score'' False example_store =
     Inr [\<lparr>info_email = ''zoe@mergington.edu'', info_score = Some (- 3)\<rparr>,
          \<lparr>info_email = ''michael@mergington.edu'', info_score = None\<rparr>,
          \<lparr>info_email = ''noah@mergington.edu'', info_score = Some 0\<rparr>,
          \<lparr>info_email = ''daniel@mergington.edu'', info_score = Some 4\<rparr>]"
  "get_sorted_participants ''Chess Club'' ''score'' True example_store =
     Inr [\<lparr>info_email = ''daniel@mergington.edu'', info_score = Some 4\<rparr>,
          \<lparr>info_email = ''michael@mergington.edu'', info_score = None\<rparr>,
          \<lparr>info_email = ''noah@mergington.edu'', info_score = Some 0\<rparr>,
          \<lparr>info_email = ''zoe@mergington.edu'', info_score = Some (- 3)\<rparr>]"
  by (simp_all add: get_sorted_participants_def example_activities example_documents
      example_info list_sort_def score_key_def)

text \<open>
  Claim C5. For a name that is no activity \<^verbatim>\<open>get_sorted_participants\<close> answers 404. For
  an activity the result has one entry for each participant, and the score of an entry is
  that of the first verified document of the activity with the entry's email: \<open>None\<close>
  when no document of that email is verified. With \<^verbatim>\<open>sort_by=score\<close> the entries are in
  the order of \<open>score_key\<close>, which is 0 for \<open>None\<close>, so an entry without a score stands among
  the others where a score of 0 would; the entry itself still has \<open>None\<close>, which is not
  \<open>Some 0\<close>.
\<close>

theorem get_sorted_participants_spec:
  "(map_of (activities st) n = None \<longrightarrow>
      get_sorted_participants n sort_by descending st =
        Inl (HTTPException 404 ''Activity not found'')) \<and>
   (\<forall>a. map_of (activities st) n = Some a \<longrightarrow>
      (\<exists>out. get_sorted_participants n sort_by descending st = Inr out \<and>
         mset (map info_email out) = mset (participants a) \<and>
         length out = length (participants a) \<and>
         (\<forall>x\<in>set out. info_score x =
            first_verified_score (info_email x) (documents_get (activity_documents st) n)) \<and>
         (sort_by = ''score'' \<longrightarrow>
            sorted_wrt (\<lambda>x y. in_order descending (score_key x) (score_key y)) out) \<and>
         (sort_by = ''name'' \<longrightarrow>
            sorted_wrt (\<lambda>x y. in_order descending (info_email x) (info_email y)) out))) \<and>
   ((\<forall>x\<in>set docs. \<not> (email x = e \<and> verified x)) \<longrightarrow> first_verified_score e docs = None) \<and>
   (\<forall>pre d post. docs = pre @ d # post \<and> (\<forall>x\<in>set pre. \<not> (email x = e \<and> verified x)) \<and>
      email d = e \<and> verified d \<longrightarrow> first_verified_score e docs = Some (score d)) \<and>
   score_key \<lparr>info_email = e, info_score = None\<rparr> = 0 \<and>
   score_key \<lparr>info_email = e, info_score = Some s\<rparr> = s \<and>
   \<lparr>info_email = e, info_score = None\<rparr> \<noteq> \<lparr>info_email = e, info_score = Some 0\<rparr>"
proof (intro conjI allI impI)
  assume "map_of (activities st) n = None"
  then show "get_sorted_participants n sort_by descending st =
      Inl (HTTPException 404 ''Activity not found'')"
    by (simp add: get_sorted_participants_def)
next
  fix a
  assume a: "map_of (activities st) n = Some a"
  show "\<exists>out. get_sorted_participants n sort_by descending st = Inr out \<and>
         mset (map info_email out) = mset (participants a) \<and>
         length out = length (participants a) \<and>
         (\<forall>x\<in>set out. info_score x =
            first_verified_score (info_email x) (documents_get (activity_documents st) n)) \<and>
         (sort_by = ''score'' \<longrightarrow>
            sorted_wrt (\<lambda>x y. in_order descending (score_key x) (score_key y)) out) \<and>
         (sort_by = ''name'' \<longrightarrow>
            sorted_wrt (\<lambda>x y. in_order descending (info_email x) (info_email y)) out)"
    using a by (rule get_sorted_participants_entries)
next
  assume "\<forall>x\<in>set docs. \<not> (email x = e \<and> verified x)"
  then show "first_verified_score e docs = None"
    by (rule first_verified_score_None)
next
  fix pre d post
  assume "docs = pre @ d # post \<and> (\<forall>x\<in>set pre. \<not> (email x = e \<and> verified x)) \<and>
      email d = e \<and> verified d"
  then show "first_verified_score e docs = Some (score d)"
    by (simp add: first_verified_score_Some)
next
  show "score_key \<lparr>info_email = e, info_score = None\<rparr> = 0"
    by (simp add: score_key_def)
next
  show "score_key \<lparr>info_email = e, info_score = Some s\<rparr> = s"
    by (simp add: score_key_def)
next
  show "\<lparr>info_email = e, info_score = None\<rparr> \<noteq> \<lparr>info_email = e, info_score = Some 0\<rparr>"
    by simp
qed

theorem get_sorted_participants_spec_witness:
  "map_of (activities example_store) ''Robotics'' = None \<and>
   get_sorted_participants ''Robotics'' ''score'' False example_store =
     Inl (HTTPException 404 ''Activity not found'') \<and>
   map_of (activities example_store) ''Chess Club'' = Some chess_club \<and>
   get_sorted_participants ''Chess Club'' ''score'' False example_store =
     Inr [\<lparr>info_email = ''zoe@mergington.edu'', info_score = Some (- 3)\<rparr>,
          \<lparr>info_email = ''michael@mergington.edu'', info_score = None\<rparr>,
          \<lparr>info_email = ''noah@mergington.edu'', info_score = Some 0\<rparr>,
          \<lparr>info_email = ''daniel@mergington.edu'', info_score = Some 4\<rparr>] \<and>
   (\<exists>out. get_sorted_participants ''Chess Club'' ''score'' False example_store = Inr out \<and>
      mset (map info_email out) = mset (participants chess_club) \<and>
      length out = length (participants chess_club) \<and>
      sorted_wrt (\<lambda>x y. in_order False (score_key x) (score_key y)) out) \<and>
   first_verified_score ''michael@mergington.edu'' chess_docs = None \<and>
   first_verified_score ''daniel@mergington.edu'' chess_docs = Some 4"
proof -
  note robotics =
    get_sorted_participants_spec [of example_store "''Robotics''" "''score''" False
      chess_docs "''michael@mergington.edu''"]
  note michael =
    get_sorted_participants_spec [of example_store "''Chess Club''" "''score''" False
      chess_docs "''michael@mergington.edu''"]
  note daniel =
    get_sorted_participants_spec [of example_store "''Chess Club''" "''score''" False
      chess_docs "''daniel@mergington.edu''"]
  from example_activities(2) robotics [THEN conjunct1]
  have a: "get_sorted_participants ''Robotics'' ''score'' False example_store =
      Inl (HTTPException 404 ''Activity not found'')"
    by (rule rev_mp)
  from michael [THEN conjunct2, THEN conjunct1] example_activities(1)
  obtain out where o:
    "get_sorted_participants ''Chess Club'' ''score'' False example_store = Inr out"
    "mset (map info_email out) = mset (participants chess_club)"
    "length out = length (participants chess_club)"
    "''score'' = ''score'' \<longrightarrow>
       sorted_wrt (\<lambda>x y. in_order False (score_key x) (score_key y)) out"
    by blast
  from o have b: "\<exists>out. get_sorted_participants ''Chess Club'' ''score'' False example_store =
        Inr out \<and>
      mset (map info_email out) = mset (participants chess_club) \<and>
      length out = length (participants chess_club) \<and>
      sorted_wrt (\<lambda>x y. in_order False (score_key x) (score_key y)) out"
    by simp
  have "\<forall>x\<in>set chess_docs. \<not> (email x = ''michael@mergington.edu'' \<and> verified x)"
    by (simp add: chess_docs_def)
  with michael [THEN conjunct2, THEN conjunct2, THEN conjunct1]
  have c: "first_verified_score ''michael@mergington.edu'' chess_docs = None"
    by (rule mp)
  have "chess_docs = [] @ chess_docs ! 0 # drop 1 chess_docs \<and>
      (\<forall>x\<in>set []. \<not> (email x = ''daniel@mergington.edu'' \<and> verified x)) \<and>
      email (chess_docs ! 0) = ''daniel@mergington.edu'' \<and> verified (chess_docs ! 0)"
    by (simp add: chess_docs_def)
  with daniel [THEN conjunct2, THEN conjunct2, THEN conjunct2, THEN conjunct1]
  have "first_verified_score ''daniel@mergington.edu'' chess_docs = Some (score (chess_docs ! 0))"
    by blast
  then have d: "first_verified_score ''daniel@mergington.edu'' chess_docs = Some 4"
    by (simp add: chess_docs_def)
  from example_activities(1,2) a example_sorted_participants(1) b c d show ?thesis
    by (intro conjI)
qed

section \<open>Stability of the sorted views\<close>




section \<open>A value of \<^verbatim>\<open>sort_by\<close> outside the enumerated ones\<close>

text \<open>
  Claim C7. The claim asks for a validation error when \<^verbatim>\<open>sort_by\<close> is none of name,
  participants and score. The handler raises nothing: for any other string it answers
  with the activities in the order of the store, whatever \<^verbatim>\<open>descending\<close> is.
\<close>

theorem get_sorted_activities_other_sort_by:
  "sort_by \<notin> {''name'', ''participants'', ''score''} \<Longrightarrow>
   get_sorted_activities sort_by descending st = Inr (map view (activities st))"
  by (simp add: get_sorted_activities_def)

theorem get_sorted_activities_other_sort_by_witness:
  "''rating'' \<notin> {''name'', ''participants'', ''score''} \<and>
   get_sorted_activities ''rating'' True example_store =
     Inr (map view (activities example_store))"
proof -
  have h: "''rating'' \<notin> {''name'', ''participants'', ''score''}"
    by simp
  from h get_sorted_activities_other_sort_by [OF h, of True example_store]
  show ?thesis by blast
qed

section \<open>No participant twice\<close>

lemma signup_unique:
  assumes "unique_participants st"
  shows "unique_participants (snd (signup_for_activity n e st))"
proof (cases "map_of (activities st) n")
  case None
  with assms show ?thesis by (simp add: signup_for_activity_def)
next
  case (Some a)
  from assms have all: "list_all (\<lambda>x. distinct (participants (snd x))) (activities st)"
    by (simp add: unique_participants_def)
  from list_all_map_of [OF all Some] have d: "distinct (participants a)" by simp
  show ?thesis
  proof (cases "e \<in> set (participants a)")
    case True
    with Some assms show ?thesis by (simp add: signup_for_activity_def)
  next
    case False
    with d have "distinct (participants (a\<lparr>participants := participants a @ [e]\<rparr>))" by simp
    with all have "list_all (\<lambda>x. distinct (participants (snd x)))
        (AList.update n (a\<lparr>participants := participants a @ [e]\<rparr>) (activities st))"
      by (intro list_all_update) simp_all
    with Some False show ?thesis
      by (simp add: signup_for_activity_def unique_participants_def)
  qed
qed

lemma unregister_unique:
  assumes "unique_participants st"
  shows "unique_participants (snd (unregister_from_activity n e st))"
proof (cases "map_of (activities st) n")
  case None
  with assms show ?thesis by (simp add: unregister_from_activity_def)
next
  case (Some a)
  from assms have all: "list_all (\<lambda>x. distinct (participants (snd x))) (activities st)"
    by (simp add: unique_participants_def)
  from list_all_map_of [OF all Some] have d: "distinct (participants a)" by simp
  show ?thesis
  proof (cases "e \<in> set (participants a)")
    case False
    with Some assms show ?thesis by (simp add: unregister_from_activity_def)
  next
    case True
    from d have "distinct (participants (a\<lparr>participants := remove1 e (participants a)\<rparr>))"
      by simp
    with all have "list_all (\<lambda>x. distinct (participants (snd x)))
        (AList.update n (a\<lparr>participants := remove1 e (participants a)\<rparr>) (activities st))"
      by (intro list_all_update) simp_all
    with Some True show ?thesis
      by (simp add: unregister_from_activity_def unique_participants_def)
  qed
qed

lemma upload_activities: "activities (snd (upload_document n e f c s st)) = activities st"
  by (simp add: upload_document_def)

lemma verify_activities: "activities (snd (verify_document n e f st)) = activities st"
  by (simp add: verify_document_def split: option.splits)

lemma handle_unique: "unique_participants st \<Longrightarrow> unique_participants (handle r st)"
proof (cases r)
  case (Signup n e)
  assume "unique_participants st"
  with Signup show ?thesis by (simp add: signup_unique)
next
  case (Unregister n e)
  assume "unique_participants st"
  with Unregister show ?thesis by (simp add: unregister_unique)
next
  case (Upload n e f c s)
  assume "unique_participants st"
  with Upload show ?thesis by (simp add: unique_participants_def upload_activities)
next
  case (Verify n e f)
  assume "unique_participants st"
  with Verify show ?thesis by (simp add: unique_participants_def verify_activities)
qed simp_all

lemma seed_unique: "unique_participants seed"
  by (simp add: unique_participants_def seed_def seed_activities_def)

lemma reachable_unique: "reachable st \<Longrightarrow> unique_participants st"
proof (induction rule: reachable.induct)
  case start
  show ?case by (rule seed_unique)
next
  case (request st r)
  then show ?case by (simp add: handle_unique)
qed

text \<open>
  Claim C8. Every request keeps the participants of every activity free of repetitions,
  and the seed data has none, so no store reachable from the seed by requests has an email
  twice among the participants of an activity.
\<close>

theorem participants_never_repeat:
  "(unique_participants st \<longrightarrow> unique_participants (handle r st)) \<and>
   (reachable st \<longrightarrow> unique_participants st)"
  using handle_unique reachable_unique by blast

theorem participants_never_repeat_witness:
  "reachable (handle (Signup ''Chess Club'' ''ada@mergington.edu'') seed) \<and>
   unique_participants (handle (Signup ''Chess Club'' ''ada@mergington.edu'') seed) \<and>
   unique_participants (handle (Signup ''Chess Club'' ''ada@mergington.edu'')
     (handle (Signup ''Chess Club'' ''ada@mergington.edu'') seed))"
proof -
  have r: "reachable (handle (Signup ''Chess Club'' ''ada@mergington.edu'') seed)"
    by (rule reachable.request [OF reachable.start])
  with participants_never_repeat
    [of "handle (Signup ''Chess Club'' ''ada@mergington.edu'') seed"
        "Signup ''Chess Club'' ''ada@mergington.edu''"]
  show ?thesis by blast
qed

section \<open>Verifying twice\<close>

text \<open>
  Claim C9. When \<^verbatim>\<open>verify_document\<close> succeeds, the same request on the store it leaves
  succeeds again, with the same answer, and leaves that store as it is.
\<close>

theorem verify_document_idempotent:
  assumes "verify_document n e f st = (Inr msg, st')"
  shows "verify_document n e f st' = (Inr msg, st')"
proof -
  from assms obtain docs' where
    l: "verify_loop e f (documents_get (activity_documents st) n) = Some docs'"
    by (auto simp: verify_document_def split: option.splits)
  with assms have
    m: "msg = ''Verified '' @ f @ '' for '' @ e @ '' in '' @ n" and
    s: "st' = st\<lparr>activity_documents := AList.update n docs' (activity_documents st)\<rparr>"
    by (auto simp: verify_document_def)
  have g: "documents_get (activity_documents st') n = docs'"
    by (simp add: s documents_get_update)
  have u: "AList.update n docs' (activity_documents st') = activity_documents st'"
    by (simp add: s AList.update_last)
  from verify_loop_again [OF l] have "verify_loop e f (documents_get (activity_documents st') n) = Some docs'"
    by (simp add: g)
  then show ?thesis
    by (simp add: verify_document_def m u)
qed

theorem verify_document_idempotent_witness:
  "fst (verify_document ''Chess Club'' ''michael@mergington.edu'' ''cert.pdf'' example_store) =
     Inr ''Verified cert.pdf for michael@mergington.edu in Chess Club'' \<and>
   verify_document ''Chess Club'' ''michael@mergington.edu'' ''cert.pdf''
     (snd (verify_document ''Chess Club'' ''michael@mergington.edu'' ''cert.pdf'' example_store)) =
     (Inr ''Verified cert.pdf for michael@mergington.edu in Chess Club'',
      snd (verify_document ''Chess Club'' ''michael@mergington.edu'' ''cert.pdf'' example_store))"
proof -
  let ?r = "verify_document ''Chess Club'' ''michael@mergington.edu'' ''cert.pdf'' example_store"
  have f: "fst ?r = Inr ''Verified cert.pdf for michael@mergington.edu in Chess Club''"
    by (simp add: verify_document_def example_documents chess_docs_def)
  then have "?r = (Inr ''Verified cert.pdf for michael@mergington.edu in Chess Club'', snd ?r)"
    by (metis prod.collapse)
  from f verify_document_idempotent [OF this] show ?thesis by blast
qed

section \<open>The sorted activities are the activities\<close>



end
